theory Spec2Isabelle
  imports Main "HOL-Library.Word"
begin

section \<open>The sketch sensor_triggered_light.ino as a state transformer\<close>

text \<open>
  The sketch consists of one function, \<^verbatim>\<open>loop()\<close>, which the Arduino runtime calls
  again and again. Its function-local \<^verbatim>\<open>static\<close> variables survive from one call to the
  next; they are the fields of the record \<open>state\<close>. Everything the function obtains from
  the board during one call (the values returned by \<^verbatim>\<open>millis()\<close>, \<^verbatim>\<open>micros()\<close> and
  \<^verbatim>\<open>digitalRead\<close>) is a field of the record \<open>inputs\<close>, one field for each place in the
  text where the call stands, since two calls of \<^verbatim>\<open>millis()\<close> in one pass need not
  return the same number.

  On the AVR boards the sketch targets, \<^verbatim>\<open>unsigned long\<close> has 32 bits and \<^verbatim>\<open>byte\<close> has 8;
  unsigned arithmetic wraps around, which is what \<open>+\<close>, \<open>-\<close> and \<open>*\<close> on words do.
\<close>

type_synonym ulong = "32 word"
type_synonym byte = "8 word"

text \<open>
  The two tuning macros \<^verbatim>\<open>lightInterval\<close> (seconds) and \<^verbatim>\<open>pingInches\<close> are parameters
  of the model; \<open>sketch\<close> holds the values that the source gives them. Both macros are
  only used inside 32-bit products, so they are kept as 32-bit values.
\<close>

record config =
  lightInterval :: ulong
  pingInches :: ulong

definition sketch :: config where
  "sketch = \<lparr>lightInterval = 90, pingInches = 24\<rparr>"

text \<open>\<^verbatim>\<open>1000UL * lightInterval\<close>, the hold interval in milliseconds.\<close>

definition holdMillis :: "config \<Rightarrow> ulong" where
  "holdMillis c = 1000 * lightInterval c"

text \<open>
  \<^verbatim>\<open>2L * 74 * pingInches\<close>, the echo length in microseconds below which a body counts
  as near. The product is a \<^verbatim>\<open>long\<close> that the comparison with an \<^verbatim>\<open>unsigned long\<close>
  converts to \<^verbatim>\<open>unsigned long\<close>.
\<close>

definition pingMicros :: "config \<Rightarrow> ulong" where
  "pingMicros c = 2 * 74 * pingInches c"

text \<open>The static variables of \<^verbatim>\<open>loop()\<close>.\<close>

record state =
  bodyTime :: ulong
  pirWarm :: byte
  pingState :: byte
  echoTime :: ulong
  pongState :: byte

text \<open>
  \<^verbatim>\<open>bodyTime\<close> has the initialiser \<^verbatim>\<open>0 - 1000UL * lightInterval\<close>; the other statics have
  none and so start at zero.
\<close>

definition init :: "config \<Rightarrow> state" where
  "init c = \<lparr>bodyTime = 0 - holdMillis c, pirWarm = 0, pingState = 0,
             echoTime = 0, pongState = 0\<rparr>"

text \<open>
  What one pass reads from the board. A pin level is a \<open>bool\<close>, \<open>True\<close> for HIGH.
  The pass reads the echo pin and \<^verbatim>\<open>micros()\<close> at most once (in \<^verbatim>\<open>case 1\<close> or in
  \<^verbatim>\<open>case 2\<close> of the switch), so one field each is enough.
\<close>

record inputs =
  millis_light :: ulong  \<comment> \<open>\<^verbatim>\<open>millis()\<close> in the condition that decides the light\<close>
  millis_rearm :: ulong  \<comment> \<open>\<^verbatim>\<open>millis()\<close> in the else branch of that condition\<close>
  millis_warm :: ulong   \<comment> \<open>\<^verbatim>\<open>millis()\<close> in the warm-up test\<close>
  pirPin :: bool         \<comment> \<open>\<^verbatim>\<open>digitalRead(pirPin)\<close>\<close>
  millis_pir :: ulong    \<comment> \<open>\<^verbatim>\<open>millis()\<close> stored when the PIR sensor reads HIGH\<close>
  echoPin :: bool        \<comment> \<open>\<^verbatim>\<open>digitalRead(echoPin)\<close>\<close>
  micros :: ulong        \<comment> \<open>\<^verbatim>\<open>micros()\<close>\<close>
  millis_pong :: ulong   \<comment> \<open>\<^verbatim>\<open>millis()\<close> stored when \<^verbatim>\<open>pongState\<close> is set\<close>

text \<open>
  What one pass does that can be seen from outside: the levels it writes to the light pin
  and to the debug LED (the sketch defines \<^verbatim>\<open>DEBUG\<close>), whether it sent a trigger pulse,
  and which of the three conditional blocks it entered.
\<close>

record events =
  lightOut :: bool   \<comment> \<open>level written to \<^verbatim>\<open>lightPin\<close>\<close>
  pirHit :: bool     \<comment> \<open>the PIR block assigned \<^verbatim>\<open>bodyTime\<close>\<close>
  pinged :: bool     \<comment> \<open>\<^verbatim>\<open>case 0\<close>: a 10 microsecond pulse on \<^verbatim>\<open>triggerPin\<close>\<close>
  cycleDone :: bool  \<comment> \<open>\<^verbatim>\<open>case 2\<close> saw the echo pin LOW and assigned \<^verbatim>\<open>pongState\<close>\<close>
  pongHit :: bool    \<comment> \<open>the \<^verbatim>\<open>if (pongState)\<close> block assigned \<^verbatim>\<open>bodyTime\<close>\<close>
  ledOut :: bool     \<comment> \<open>level written to \<^verbatim>\<open>ledPin\<close>, the variable \<^verbatim>\<open>sensor\<close>\<close>

subsection \<open>(1) Turn the light on or off\<close>

definition light_step :: "config \<Rightarrow> inputs \<Rightarrow> state \<Rightarrow> bool \<times> state" where
  "light_step c i s =
     (if millis_light i - bodyTime s < holdMillis c then (True, s)
      else (False, s\<lparr>bodyTime := millis_rearm i - holdMillis c\<rparr>))"

subsection \<open>(2) Check the PIR sensor\<close>

definition warm_step :: "inputs \<Rightarrow> state \<Rightarrow> state" where
  "warm_step i s =
     (if pirWarm s = 0 \<and> 60000 < millis_warm i then s\<lparr>pirWarm := 1\<rparr> else s)"

definition pir_step :: "inputs \<Rightarrow> state \<Rightarrow> bool \<times> state" where
  "pir_step i s =
     (let w = warm_step i s
      in if pirWarm w \<noteq> 0 \<and> pirPin i then (True, w\<lparr>bodyTime := millis_pir i\<rparr>)
         else (False, w))"

subsection \<open>(3) Check the ultrasonic sensor\<close>

text \<open>
  The switch on \<^verbatim>\<open>pingState\<close> has the cases 0, 1 and 2 and no default. The result is
  the pair of flags (trigger pulse sent, echo timed) and the new state.
\<close>

definition ping_step :: "config \<Rightarrow> inputs \<Rightarrow> state \<Rightarrow> (bool \<times> bool) \<times> state" where
  "ping_step c i s =
     (if pingState s = 0 then ((True, False), s\<lparr>pingState := 1\<rparr>)
      else if pingState s = 1 then
        (if echoPin i then ((False, False), s\<lparr>pingState := 2, echoTime := micros i\<rparr>)
         else ((False, False), s))
      else if pingState s = 2 then
        (if \<not> echoPin i then
           ((False, True),
            s\<lparr>pingState := 0,
              pongState := (if micros i - echoTime s < pingMicros c then 1 else 0)\<rparr>)
         else ((False, False), s))
      else ((False, False), s))"

definition pong_step :: "inputs \<Rightarrow> state \<Rightarrow> bool \<times> state" where
  "pong_step i s =
     (if pongState s \<noteq> 0 then (True, s\<lparr>bodyTime := millis_pong i\<rparr>) else (False, s))"

subsection \<open>One pass through \<^verbatim>\<open>loop()\<close>, and many\<close>

definition loop :: "config \<Rightarrow> inputs \<Rightarrow> state \<Rightarrow> events \<times> state" where
  "loop c i s =
     (let (light, s1) = light_step c i s;
          (pir, s2) = pir_step i s1;
          ((trig, done), s3) = ping_step c i s2;
          (pong, s4) = pong_step i s3
      in (\<lparr>lightOut = light, pirHit = pir, pinged = trig, cycleDone = done,
           pongHit = pong, ledOut = (pir \<or> pong)\<rparr>, s4))"

text \<open>
  \<open>run c ins s\<close> calls \<open>loop\<close> once for each element of \<open>ins\<close>, starting in \<open>s\<close>, and
  lists what each pass did together with the state it left behind.
\<close>

fun run :: "config \<Rightarrow> inputs list \<Rightarrow> state \<Rightarrow> (events \<times> state) list" where
  "run c [] s = []"
| "run c (i # ins) s = loop c i s # run c ins (snd (loop c i s))"

subsection \<open>Assumptions on the clock, and a short-hand for inputs\<close>

text \<open>
  \<open>steady c t ins\<close>: the passes \<open>ins\<close> follow each other closely enough. The pass that
  comes first evaluates the light condition at a clock value less than
  \<open>2 ^ 32 - holdMillis c\<close> milliseconds after \<open>t\<close>, and each later pass does so less than
  that after the clock value the pass before it read in the else branch. With the values
  of the sketch this allows a gap of more than 49 days between two passes.
\<close>

fun steady :: "config \<Rightarrow> ulong \<Rightarrow> inputs list \<Rightarrow> bool" where
  "steady c t [] = True"
| "steady c t (i # ins) =
     (unat (millis_light i - t) + unat (holdMillis c) < 2 ^ 32 \<and> steady c (millis_rearm i) ins)"

text \<open>
  \<open>pass ms us pir echo\<close>: the inputs of a pass during which every call of \<^verbatim>\<open>millis()\<close>
  returns \<open>ms\<close>, \<^verbatim>\<open>micros()\<close> returns \<open>us\<close>, and the two pins read \<open>pir\<close> and \<open>echo\<close>.
\<close>

definition pass :: "ulong \<Rightarrow> ulong \<Rightarrow> bool \<Rightarrow> bool \<Rightarrow> inputs" where
  "pass ms us pir echo =
     \<lparr>millis_light = ms, millis_rearm = ms, millis_warm = ms, pirPin = pir,
      millis_pir = ms, echoPin = echo, micros = us, millis_pong = ms\<rparr>"

text \<open>
  Three passes that make up one complete ping cycle with a body near the sensor: the
  trigger pulse, the echo pin going HIGH at 200 microseconds, and the echo pin going LOW
  1000 microseconds later (with the values of the sketch the limit is 3552).
\<close>

definition near_cycle :: "inputs list" where
  "near_cycle = [pass 10 100 False False, pass 11 200 False True, pass 12 1200 False False]"

section \<open>What one pass does, field by field\<close>

text \<open>Each block of the function first, then the function as the blocks in sequence.\<close>

lemma light_step_simps:
  "fst (light_step c i s) = (millis_light i - bodyTime s < holdMillis c)"
  "bodyTime (snd (light_step c i s)) =
     (if millis_light i - bodyTime s < holdMillis c then bodyTime s
      else millis_rearm i - holdMillis c)"
  "pirWarm (snd (light_step c i s)) = pirWarm s"
  "pingState (snd (light_step c i s)) = pingState s"
  "echoTime (snd (light_step c i s)) = echoTime s"
  "pongState (snd (light_step c i s)) = pongState s"
  by (simp_all add: light_step_def)

lemma pir_step_simps:
  "fst (pir_step i s) = ((pirWarm s \<noteq> 0 \<or> 60000 < millis_warm i) \<and> pirPin i)"
  "bodyTime (snd (pir_step i s)) = (if fst (pir_step i s) then millis_pir i else bodyTime s)"
  "pirWarm (snd (pir_step i s)) = (if pirWarm s = 0 \<and> 60000 < millis_warm i then 1 else pirWarm s)"
  "pingState (snd (pir_step i s)) = pingState s"
  "echoTime (snd (pir_step i s)) = echoTime s"
  "pongState (snd (pir_step i s)) = pongState s"
  by (simp_all add: pir_step_def warm_step_def Let_def)

lemma ping_step_simps:
  "fst (fst (ping_step c i s)) = (pingState s = 0)"
  "snd (fst (ping_step c i s)) = (pingState s = 2 \<and> \<not> echoPin i)"
  "bodyTime (snd (ping_step c i s)) = bodyTime s"
  "pirWarm (snd (ping_step c i s)) = pirWarm s"
  "pingState (snd (ping_step c i s)) =
     (if pingState s = 0 then 1
      else if pingState s = 1 \<and> echoPin i then 2
      else if pingState s = 2 \<and> \<not> echoPin i then 0
      else pingState s)"
  "echoTime (snd (ping_step c i s)) = (if pingState s = 1 \<and> echoPin i then micros i else echoTime s)"
  "pongState (snd (ping_step c i s)) =
     (if pingState s = 2 \<and> \<not> echoPin i
      then (if micros i - echoTime s < pingMicros c then 1 else 0)
      else pongState s)"
  by (simp_all add: ping_step_def)

lemma pong_step_simps:
  "fst (pong_step i s) = (pongState s \<noteq> 0)"
  "bodyTime (snd (pong_step i s)) = (if pongState s \<noteq> 0 then millis_pong i else bodyTime s)"
  "pirWarm (snd (pong_step i s)) = pirWarm s"
  "pingState (snd (pong_step i s)) = pingState s"
  "echoTime (snd (pong_step i s)) = echoTime s"
  "pongState (snd (pong_step i s)) = pongState s"
  by (simp_all add: pong_step_def)

lemma loop_fst:
  "fst (loop c i s) =
     \<lparr>lightOut = fst (light_step c i s),
      pirHit = fst (pir_step i (snd (light_step c i s))),
      pinged = fst (fst (ping_step c i (snd (pir_step i (snd (light_step c i s)))))),
      cycleDone = snd (fst (ping_step c i (snd (pir_step i (snd (light_step c i s)))))),
      pongHit = fst (pong_step i (snd (ping_step c i (snd (pir_step i (snd (light_step c i s))))))),
      ledOut = (fst (pir_step i (snd (light_step c i s))) \<or>
        fst (pong_step i (snd (ping_step c i (snd (pir_step i (snd (light_step c i s))))))))\<rparr>"
  by (simp add: loop_def Let_def case_prod_beta)

lemma loop_stages:
  "snd (loop c i s) =
     snd (pong_step i (snd (ping_step c i (snd (pir_step i (snd (light_step c i s)))))))"
  by (simp add: loop_def Let_def case_prod_beta)

lemmas stage_simps =
  loop_fst loop_stages light_step_simps pir_step_simps ping_step_simps pong_step_simps

lemma loop_lightOut:
  "lightOut (fst (loop c i s)) = (millis_light i - bodyTime s < holdMillis c)"
  by (simp add: stage_simps)

lemma loop_pirHit:
  "pirHit (fst (loop c i s)) = ((pirWarm s \<noteq> 0 \<or> 60000 < millis_warm i) \<and> pirPin i)"
  by (simp add: stage_simps)

lemma loop_pirWarm:
  "pirWarm (snd (loop c i s)) = (if pirWarm s = 0 \<and> 60000 < millis_warm i then 1 else pirWarm s)"
  by (simp add: stage_simps)

lemma loop_pinged: "pinged (fst (loop c i s)) = (pingState s = 0)"
  by (simp add: stage_simps)

lemma loop_cycleDone: "cycleDone (fst (loop c i s)) = (pingState s = 2 \<and> \<not> echoPin i)"
  by (simp add: stage_simps)

lemma loop_pingState:
  "pingState (snd (loop c i s)) =
     (if pingState s = 0 then 1
      else if pingState s = 1 \<and> echoPin i then 2
      else if pingState s = 2 \<and> \<not> echoPin i then 0
      else pingState s)"
  by (simp add: stage_simps)

lemma loop_echoTime:
  "echoTime (snd (loop c i s)) = (if pingState s = 1 \<and> echoPin i then micros i else echoTime s)"
  by (simp add: stage_simps)

lemma loop_pongState:
  "pongState (snd (loop c i s)) =
     (if pingState s = 2 \<and> \<not> echoPin i
      then (if micros i - echoTime s < pingMicros c then 1 else 0)
      else pongState s)"
  by (simp add: stage_simps)

lemma loop_pongHit: "pongHit (fst (loop c i s)) = (pongState (snd (loop c i s)) \<noteq> 0)"
  by (simp add: stage_simps)

lemma loop_ledOut:
  "ledOut (fst (loop c i s)) = (pirHit (fst (loop c i s)) \<or> pongHit (fst (loop c i s)))"
  by (simp add: stage_simps)

lemma loop_bodyTime:
  "bodyTime (snd (loop c i s)) =
     (if pongHit (fst (loop c i s)) then millis_pong i
      else if pirHit (fst (loop c i s)) then millis_pir i
      else if lightOut (fst (loop c i s)) then bodyTime s
      else millis_rearm i - holdMillis c)"
  by (simp add: stage_simps)

section \<open>Wrap-around arithmetic\<close>

lemma word_sub_less_iff_int:
  fixes a b h :: ulong
  shows "(a - b < h) = ((uint a - uint b) mod 2 ^ 32 < uint h)"
  by (simp add: word_less_def uint_word_ariths)

lemma no_wrap_not_less:
  fixes d h :: ulong
  assumes "unat d + unat h < 2 ^ 32"
  shows "\<not> d + h < h"
proof -
  have "unat (d + h) = (unat d + unat h) mod 2 ^ 32"
    by (simp add: unat_word_ariths)
  with assms have "unat (d + h) = unat d + unat h"
    by simp
  then show ?thesis
    by (simp add: word_less_nat_alt)
qed

section \<open>Evaluating concrete passes\<close>

lemmas eval_simps =
  near_cycle_def pass_def init_def sketch_def holdMillis_def pingMicros_def
  loop_lightOut loop_pirHit loop_pirWarm loop_pinged loop_cycleDone loop_pingState
  loop_echoTime loop_pongState loop_pongHit loop_ledOut loop_bodyTime

section \<open>The light decision\<close>

text \<open>
  C1. The level written to the light pin is HIGH exactly when the difference between the
  clock value read in the condition and \<^verbatim>\<open>bodyTime\<close>, taken modulo \<open>2 ^ 32\<close>, is strictly
  less than the hold interval. It is LOW when the difference is the hold interval
  exactly. If \<open>e\<close> milliseconds (fewer than \<open>2 ^ 32\<close>) have really passed since the value
  in \<^verbatim>\<open>bodyTime\<close> was read, the level is HIGH exactly when \<open>e\<close> is less than the hold
  interval, whether or not the counter wrapped around in between.
\<close>

theorem light_on_iff_recent:
  "lightOut (fst (loop c i s)) =
     ((uint (millis_light i) - uint (bodyTime s)) mod 2 ^ 32 < uint (holdMillis c))
   \<and> \<not> lightOut (fst (loop c (i\<lparr>millis_light := bodyTime s + holdMillis c\<rparr>) s))
   \<and> (e < 2 ^ 32 \<longrightarrow>
        lightOut (fst (loop c (i\<lparr>millis_light := bodyTime s + word_of_nat e\<rparr>) s)) =
          (e < unat (holdMillis c)))"
proof (intro conjI impI)
  show "lightOut (fst (loop c i s)) =
     ((uint (millis_light i) - uint (bodyTime s)) mod 2 ^ 32 < uint (holdMillis c))"
    by (simp only: loop_lightOut word_sub_less_iff_int)
  show "\<not> lightOut (fst (loop c (i\<lparr>millis_light := bodyTime s + holdMillis c\<rparr>) s))"
    by (simp add: loop_lightOut)
  assume e: "e < 2 ^ 32"
  have "unat (word_of_nat e :: ulong) = e"
    using e by (simp add: unat_of_nat)
  then show "lightOut (fst (loop c (i\<lparr>millis_light := bodyTime s + word_of_nat e\<rparr>) s)) =
          (e < unat (holdMillis c))"
    by (simp add: loop_lightOut word_less_nat_alt)
qed

text \<open>
  The instance has \<^verbatim>\<open>bodyTime\<close> 1000 ms before the counter wraps and the clock 4000 ms
  after it: plain subtraction is negative, 5000 ms have passed, the light is on. At
  89000 exactly 90000 ms have passed and the light is off.
\<close>

theorem light_on_iff_recent_witness:
  "(5000 :: nat) < 2 ^ 32
   \<and> uint (4000 :: ulong) - uint (4294966296 :: ulong) < 0
   \<and> (4294966296 :: ulong) + word_of_nat 5000 = 4000
   \<and> lightOut (fst (loop sketch (pass 4000 0 False False)
        \<lparr>bodyTime = 4294966296, pirWarm = 0, pingState = 0, echoTime = 0, pongState = 0\<rparr>))
   \<and> \<not> lightOut (fst (loop sketch (pass 89000 0 False False)
        \<lparr>bodyTime = 4294966296, pirWarm = 0, pingState = 0, echoTime = 0, pongState = 0\<rparr>))"
  using light_on_iff_recent [of sketch "pass 4000 0 False False"
      "\<lparr>bodyTime = 4294966296, pirWarm = 0, pingState = 0, echoTime = 0, pongState = 0\<rparr>" 5000]
  by (simp add: pass_def sketch_def holdMillis_def loop_lightOut)

text \<open>
  C2. A pass that writes LOW to the light pin also assigns \<^verbatim>\<open>bodyTime\<close>: the new value is
  the clock value read in the else branch minus the hold interval, so the age of
  \<^verbatim>\<open>bodyTime\<close> at that moment is the hold interval exactly. If neither sensor block
  assigns \<^verbatim>\<open>bodyTime\<close> later in the pass, this is the value the pass leaves behind, and
  a following pass that comes less than \<open>2 ^ 32 - holdMillis c\<close> milliseconds later writes
  LOW again, however old the value of \<^verbatim>\<open>bodyTime\<close> was before.
\<close>

theorem rearm_when_light_off:
  assumes off: "\<not> lightOut (fst (loop c i s))"
  shows "bodyTime (snd (light_step c i s)) = millis_rearm i - holdMillis c
    \<and> millis_rearm i - bodyTime (snd (light_step c i s)) = holdMillis c
    \<and> (\<not> pirHit (fst (loop c i s)) \<and> \<not> pongHit (fst (loop c i s)) \<longrightarrow>
         bodyTime (snd (loop c i s)) = millis_rearm i - holdMillis c
         \<and> (unat (millis_light j - millis_rearm i) + unat (holdMillis c) < 2 ^ 32 \<longrightarrow>
              \<not> lightOut (fst (loop c j (snd (loop c i s))))))"
proof (intro conjI impI)
  from off have nl: "\<not> millis_light i - bodyTime s < holdMillis c"
    by (simp add: loop_lightOut)
  then show a: "bodyTime (snd (light_step c i s)) = millis_rearm i - holdMillis c"
    by (simp add: light_step_def)
  then show "millis_rearm i - bodyTime (snd (light_step c i s)) = holdMillis c"
    by simp
  assume q: "\<not> pirHit (fst (loop c i s)) \<and> \<not> pongHit (fst (loop c i s))"
  with off show b: "bodyTime (snd (loop c i s)) = millis_rearm i - holdMillis c"
    by (simp add: loop_bodyTime)
  assume "unat (millis_light j - millis_rearm i) + unat (holdMillis c) < 2 ^ 32"
  then have "\<not> millis_light j - millis_rearm i + holdMillis c < holdMillis c"
    by (rule no_wrap_not_less)
  then show "\<not> lightOut (fst (loop c j (snd (loop c i s))))"
    by (simp add: loop_lightOut b algebra_simps)
qed

text \<open>
  The instance: \<^verbatim>\<open>bodyTime\<close> is 0 and nothing is sensed for 4294000000 ms. The pass at
  that time moves \<^verbatim>\<open>bodyTime\<close> to 4293910000. The next pass comes after the counter has
  wrapped, at 50000: measured against the old value 0 the light would go on, measured
  against the new one it stays off.
\<close>

theorem rearm_when_light_off_witness:
  "\<not> lightOut (fst (loop sketch (pass 4294000000 0 False False) (init sketch\<lparr>bodyTime := 0\<rparr>)))
   \<and> bodyTime (snd (loop sketch (pass 4294000000 0 False False) (init sketch\<lparr>bodyTime := 0\<rparr>)))
       = 4293910000
   \<and> (50000 :: ulong) - 0 < holdMillis sketch
   \<and> unat ((50000 :: ulong) - 4294000000) + unat (holdMillis sketch) < 2 ^ 32
   \<and> \<not> lightOut (fst (loop sketch (pass 50000 0 False False)
        (snd (loop sketch (pass 4294000000 0 False False) (init sketch\<lparr>bodyTime := 0\<rparr>)))))"
  using rearm_when_light_off [of sketch "pass 4294000000 0 False False"
      "init sketch\<lparr>bodyTime := 0\<rparr>" "pass 50000 0 False False"]
  by (simp add: pass_def sketch_def holdMillis_def init_def loop_lightOut loop_bodyTime
      loop_pirHit loop_pongHit loop_pongState)

section \<open>The ultrasonic sensor\<close>

subsection \<open>The result of a ping cycle is kept in \<^verbatim>\<open>pongState\<close>\<close>

text \<open>
  C3 does not hold as stated. The run is one complete ping cycle with a near body,
  followed by one more pass. The cycle completes in the third pass (index 2). The fourth
  pass (index 3) only sends the next trigger pulse, and the PIR pin is LOW, yet it enters
  the \<^verbatim>\<open>if (pongState)\<close> block and assigns its own clock value 13 to \<^verbatim>\<open>bodyTime\<close>: the
  result of the cycle was stored and acts again in a pass in which no cycle completes.
\<close>

theorem pong_flag_counterexample:
  "cycleDone (fst (run sketch (near_cycle @ [pass 13 1300 False False]) (init sketch) ! 2))
   \<and> \<not> cycleDone (fst (run sketch (near_cycle @ [pass 13 1300 False False]) (init sketch) ! 3))
   \<and> \<not> pirHit (fst (run sketch (near_cycle @ [pass 13 1300 False False]) (init sketch) ! 3))
   \<and> pongHit (fst (run sketch (near_cycle @ [pass 13 1300 False False]) (init sketch) ! 3))
   \<and> bodyTime (snd (run sketch (near_cycle @ [pass 13 1300 False False]) (init sketch) ! 3)) = 13"
  by (simp add: eval_simps)

text \<open>
  C3, as the code has it. A pass assigns the result of the echo comparison only when it
  is in \<^verbatim>\<open>case 2\<close> and reads the echo pin LOW, which is the step from \<^verbatim>\<open>pingState\<close> 2
  back to 0, so once for each completed ping cycle; the result goes into the static
  variable \<^verbatim>\<open>pongState\<close>. Every other pass leaves \<^verbatim>\<open>pongState\<close> as it was. Each pass,
  completing or not, assigns the clock to \<^verbatim>\<open>bodyTime\<close> exactly when \<^verbatim>\<open>pongState\<close> is
  nonzero after the switch.
\<close>

theorem pong_flag_latched:
  "cycleDone (fst (loop c i s)) = (pingState s = 2 \<and> \<not> echoPin i)
   \<and> (cycleDone (fst (loop c i s)) \<longrightarrow>
        pingState (snd (loop c i s)) = 0
        \<and> pongState (snd (loop c i s)) = (if micros i - echoTime s < pingMicros c then 1 else 0))
   \<and> (\<not> cycleDone (fst (loop c i s)) \<longrightarrow> pongState (snd (loop c i s)) = pongState s)
   \<and> pongHit (fst (loop c i s)) = (pongState (snd (loop c i s)) \<noteq> 0)
   \<and> (pongHit (fst (loop c i s)) \<longrightarrow> bodyTime (snd (loop c i s)) = millis_pong i)"
proof (intro conjI impI)
  show "cycleDone (fst (loop c i s)) = (pingState s = 2 \<and> \<not> echoPin i)"
    by (rule loop_cycleDone)
  show "pingState (snd (loop c i s)) = 0" if "cycleDone (fst (loop c i s))"
    using that by (simp add: loop_cycleDone loop_pingState)
  show "pongState (snd (loop c i s)) = (if micros i - echoTime s < pingMicros c then 1 else 0)"
    if "cycleDone (fst (loop c i s))"
    using that by (simp add: loop_cycleDone loop_pongState)
  show "pongState (snd (loop c i s)) = pongState s" if "\<not> cycleDone (fst (loop c i s))"
    using that by (auto simp add: loop_cycleDone loop_pongState)
  show "pongHit (fst (loop c i s)) = (pongState (snd (loop c i s)) \<noteq> 0)"
    by (rule loop_pongHit)
  show "bodyTime (snd (loop c i s)) = millis_pong i" if "pongHit (fst (loop c i s))"
    using that by (simp add: loop_bodyTime)
qed

text \<open>
  The instances: the pass that completes the near cycle, and a pass after it that only
  sends the next trigger pulse.
\<close>

theorem pong_flag_latched_witness:
  "cycleDone (fst (loop sketch (pass 12 1200 False False)
      (init sketch\<lparr>pingState := 2, echoTime := 200\<rparr>)))
   \<and> pingState (snd (loop sketch (pass 12 1200 False False)
      (init sketch\<lparr>pingState := 2, echoTime := 200\<rparr>))) = 0
   \<and> pongState (snd (loop sketch (pass 12 1200 False False)
      (init sketch\<lparr>pingState := 2, echoTime := 200\<rparr>))) = 1
   \<and> \<not> cycleDone (fst (loop sketch (pass 13 1300 False False) (init sketch\<lparr>pongState := 1\<rparr>)))
   \<and> pongState (snd (loop sketch (pass 13 1300 False False) (init sketch\<lparr>pongState := 1\<rparr>))) = 1
   \<and> pongHit (fst (loop sketch (pass 13 1300 False False) (init sketch\<lparr>pongState := 1\<rparr>)))
   \<and> bodyTime (snd (loop sketch (pass 13 1300 False False) (init sketch\<lparr>pongState := 1\<rparr>))) = 13"
  using pong_flag_latched [of sketch "pass 12 1200 False False"
      "init sketch\<lparr>pingState := 2, echoTime := 200\<rparr>"]
    pong_flag_latched [of sketch "pass 13 1300 False False" "init sketch\<lparr>pongState := 1\<rparr>"]
  by (simp add: eval_simps)

lemma flag_clear_until_done:
  "pongState s = 0 \<Longrightarrow> list_all (\<lambda>x. \<not> cycleDone (fst x)) (run c ins s) \<Longrightarrow>
   list_all (\<lambda>x. \<not> pongHit (fst x) \<and> pongState (snd x) = 0) (run c ins s)"
proof (induction ins arbitrary: s)
  case Nil
  show ?case by simp
next
  case (Cons i ins)
  from Cons.prems have nd: "\<not> (pingState s = 2 \<and> \<not> echoPin i)"
    by (simp add: loop_cycleDone)
  with Cons.prems have z: "pongState (snd (loop c i s)) = 0"
    by (simp add: loop_pongState)
  from Cons.prems have "list_all (\<lambda>x. \<not> cycleDone (fst x)) (run c ins (snd (loop c i s)))"
    by simp
  from Cons.IH [OF z this] z show ?case
    by (simp add: loop_pongHit)
qed

lemma flag_set_until_far:
  "pongState s \<noteq> 0 \<Longrightarrow>
   list_all (\<lambda>x. \<not> (cycleDone (fst x) \<and> pongState (snd x) = 0)) (run c ins s) \<Longrightarrow>
   list_all (\<lambda>(j, x). pongHit (fst x) \<and> bodyTime (snd x) = millis_pong j) (zip ins (run c ins s))"
proof (induction ins arbitrary: s)
  case Nil
  show ?case by simp
next
  case (Cons i ins)
  from Cons.prems have "\<not> (cycleDone (fst (loop c i s)) \<and> pongState (snd (loop c i s)) = 0)"
    by simp
  with Cons.prems(1) have nz: "pongState (snd (loop c i s)) \<noteq> 0"
    by (auto simp add: loop_cycleDone loop_pongState split: if_splits)
  then have hit: "pongHit (fst (loop c i s))"
    by (simp add: loop_pongHit)
  then have bt: "bodyTime (snd (loop c i s)) = millis_pong i"
    by (simp add: loop_bodyTime)
  from Cons.prems have
    "list_all (\<lambda>x. \<not> (cycleDone (fst x) \<and> pongState (snd x) = 0)) (run c ins (snd (loop c i s)))"
    by simp
  from Cons.IH [OF nz this] hit bt show ?case
    by simp
qed

text \<open>
  C4. \<^verbatim>\<open>pongState\<close> starts at zero. In a run from the initial state, as long as no pass
  completes a ping cycle, no pass enters the \<^verbatim>\<open>if (pongState)\<close> block. A pass that
  completes a cycle with an echo shorter than the limit enters the block and assigns its
  clock value to \<^verbatim>\<open>bodyTime\<close>, and so does every pass after it, up to the pass that
  completes a cycle and leaves \<^verbatim>\<open>pongState\<close> at zero (by C3, a cycle whose echo is not
  shorter than the limit). Such a pass does not enter the block.
\<close>

theorem pong_flag_persists:
  "pongState (init c) = 0
   \<and> (list_all (\<lambda>x. \<not> cycleDone (fst x)) (run c ins (init c)) \<longrightarrow>
        list_all (\<lambda>x. \<not> pongHit (fst x)) (run c ins (init c)))
   \<and> (pingState s = 2 \<and> \<not> echoPin i \<and> micros i - echoTime s < pingMicros c
        \<and> list_all (\<lambda>x. \<not> (cycleDone (fst x) \<and> pongState (snd x) = 0))
             (run c rest (snd (loop c i s))) \<longrightarrow>
        pongHit (fst (loop c i s)) \<and> bodyTime (snd (loop c i s)) = millis_pong i
        \<and> list_all (\<lambda>(j, x). pongHit (fst x) \<and> bodyTime (snd x) = millis_pong j)
             (zip rest (run c rest (snd (loop c i s)))))
   \<and> (pingState s = 2 \<and> \<not> echoPin i \<and> \<not> micros i - echoTime s < pingMicros c \<longrightarrow>
        \<not> pongHit (fst (loop c i s)) \<and> pongState (snd (loop c i s)) = 0)"
proof (intro conjI impI)
  show "pongState (init c) = 0"
    by (simp add: init_def)
  show "list_all (\<lambda>x. \<not> pongHit (fst x)) (run c ins (init c))"
    if a: "list_all (\<lambda>x. \<not> cycleDone (fst x)) (run c ins (init c))"
  proof -
    have "pongState (init c) = 0"
      by (simp add: init_def)
    from flag_clear_until_done [OF this a] show ?thesis
      by (simp add: list_all_iff)
  qed
next
  assume a: "pingState s = 2 \<and> \<not> echoPin i \<and> micros i - echoTime s < pingMicros c
        \<and> list_all (\<lambda>x. \<not> (cycleDone (fst x) \<and> pongState (snd x) = 0))
             (run c rest (snd (loop c i s)))"
  then have nz: "pongState (snd (loop c i s)) \<noteq> 0"
    by (simp add: loop_pongState)
  then show hit: "pongHit (fst (loop c i s))"
    by (simp add: loop_pongHit)
  then show "bodyTime (snd (loop c i s)) = millis_pong i"
    by (simp add: loop_bodyTime)
  from a have "list_all (\<lambda>x. \<not> (cycleDone (fst x) \<and> pongState (snd x) = 0))
      (run c rest (snd (loop c i s)))"
    by simp
  with nz show "list_all (\<lambda>(j, x). pongHit (fst x) \<and> bodyTime (snd x) = millis_pong j)
      (zip rest (run c rest (snd (loop c i s))))"
    by (rule flag_set_until_far)
next
  assume a: "pingState s = 2 \<and> \<not> echoPin i \<and> \<not> micros i - echoTime s < pingMicros c"
  then show z: "pongState (snd (loop c i s)) = 0"
    by (simp add: loop_pongState)
  then show "\<not> pongHit (fst (loop c i s))"
    by (simp add: loop_pongHit)
qed

text \<open>
  The instances: two passes from the start that complete no cycle; the pass that completes
  a cycle with an echo of 1000 microseconds and the two passes after it; and a pass that
  completes a cycle with an echo of 4800 microseconds while the flag is set.
\<close>

theorem pong_flag_persists_witness:
  "list_all (\<lambda>x. \<not> cycleDone (fst x))
      (run sketch [pass 10 100 False False, pass 11 200 False True] (init sketch))
   \<and> list_all (\<lambda>x. \<not> pongHit (fst x))
      (run sketch [pass 10 100 False False, pass 11 200 False True] (init sketch))
   \<and> pingState (init sketch\<lparr>pingState := 2, echoTime := 200\<rparr>) = 2
   \<and> \<not> echoPin (pass 12 1200 False False)
   \<and> (1200 :: ulong) - 200 < pingMicros sketch
   \<and> list_all (\<lambda>x. \<not> (cycleDone (fst x) \<and> pongState (snd x) = 0))
        (run sketch [pass 13 1300 False False, pass 14 1400 False True]
          (snd (loop sketch (pass 12 1200 False False)
             (init sketch\<lparr>pingState := 2, echoTime := 200\<rparr>))))
   \<and> list_all (\<lambda>(j, x). pongHit (fst x) \<and> bodyTime (snd x) = millis_pong j)
        (zip [pass 13 1300 False False, pass 14 1400 False True]
          (run sketch [pass 13 1300 False False, pass 14 1400 False True]
            (snd (loop sketch (pass 12 1200 False False)
               (init sketch\<lparr>pingState := 2, echoTime := 200\<rparr>)))))
   \<and> \<not> (5000 :: ulong) - 200 < pingMicros sketch
   \<and> \<not> pongHit (fst (loop sketch (pass 12 5000 False False)
        (init sketch\<lparr>pingState := 2, echoTime := 200, pongState := 1\<rparr>)))"
  using pong_flag_persists [of sketch "[pass 10 100 False False, pass 11 200 False True]"
      "init sketch\<lparr>pingState := 2, echoTime := 200\<rparr>" "pass 12 1200 False False"
      "[pass 13 1300 False False, pass 14 1400 False True]"]
    pong_flag_persists [of sketch "[]"
      "init sketch\<lparr>pingState := 2, echoTime := 200, pongState := 1\<rparr>" "pass 12 5000 False False"
      "[]"]
  by (simp add: eval_simps)

subsection \<open>An echo pin that never changes\<close>

lemma stall_one:
  assumes "pingState s = 1 \<and> \<not> echoPin i \<or> pingState s = 2 \<and> echoPin i"
  shows "pingState (snd (loop c i s)) = pingState s"
    and "pongState (snd (loop c i s)) = pongState s"
    and "echoTime (snd (loop c i s)) = echoTime s"
    and "\<not> cycleDone (fst (loop c i s))"
    and "\<not> pinged (fst (loop c i s))"
    and "pongHit (fst (loop c i s)) = (pongState s \<noteq> 0)"
  using assms
  by (auto simp add: loop_pingState loop_pongState loop_echoTime loop_cycleDone loop_pinged
      loop_pongHit)

lemma stall_run:
  "pingState s = 1 \<and> list_all (\<lambda>j. \<not> echoPin j) ins \<or> pingState s = 2 \<and> list_all echoPin ins \<Longrightarrow>
   list_all (\<lambda>x. pingState (snd x) = pingState s \<and> pongState (snd x) = pongState s
       \<and> echoTime (snd x) = echoTime s \<and> \<not> cycleDone (fst x) \<and> \<not> pinged (fst x)
       \<and> pongHit (fst x) = (pongState s \<noteq> 0))
     (run c ins s)"
proof (induction ins arbitrary: s)
  case Nil
  show ?case by simp
next
  case (Cons i ins)
  from Cons.prems have st: "pingState s = 1 \<and> \<not> echoPin i \<or> pingState s = 2 \<and> echoPin i"
    by auto
  note one = stall_one [OF st, of c]
  from Cons.prems have "pingState (snd (loop c i s)) = 1 \<and> list_all (\<lambda>j. \<not> echoPin j) ins
      \<or> pingState (snd (loop c i s)) = 2 \<and> list_all echoPin ins"
    by (auto simp add: one(1))
  from Cons.IH [OF this] show ?case
    by (simp add: one)
qed

lemma stall_ping_step:
  "pingState s = 1 \<and> \<not> echoPin i \<or> pingState s = 2 \<and> echoPin i \<Longrightarrow>
   ping_step c i s = ((False, False), s)"
  by (auto simp add: ping_step_def)

text \<open>
  C5 does not hold as stated. After one complete cycle with a near body the next
  pass (index 3) sends a trigger pulse and \<^verbatim>\<open>pingState\<close> becomes 1. From then on the echo
  pin stays LOW and the PIR pin is LOW as well. \<^verbatim>\<open>pingState\<close> stays 1, and still the passes
  at 1000 s and one millisecond later (indices 4 and 5) each record a detection from the
  ultrasonic block and the light is on, long after the hold interval of 90 s.
\<close>

theorem ranging_stall_counterexample:
  "pingState (snd (run sketch
       (near_cycle @ [pass 13 1300 False False, pass 1000000 1400 False False,
          pass 1000001 1500 False False]) (init sketch) ! 3)) = 1
   \<and> pingState (snd (run sketch
       (near_cycle @ [pass 13 1300 False False, pass 1000000 1400 False False,
          pass 1000001 1500 False False]) (init sketch) ! 5)) = 1
   \<and> \<not> pirHit (fst (run sketch
       (near_cycle @ [pass 13 1300 False False, pass 1000000 1400 False False,
          pass 1000001 1500 False False]) (init sketch) ! 4))
   \<and> pongHit (fst (run sketch
       (near_cycle @ [pass 13 1300 False False, pass 1000000 1400 False False,
          pass 1000001 1500 False False]) (init sketch) ! 4))
   \<and> pongHit (fst (run sketch
       (near_cycle @ [pass 13 1300 False False, pass 1000000 1400 False False,
          pass 1000001 1500 False False]) (init sketch) ! 5))
   \<and> lightOut (fst (run sketch
       (near_cycle @ [pass 13 1300 False False, pass 1000000 1400 False False,
          pass 1000001 1500 False False]) (init sketch) ! 5))"
  by (simp add: eval_simps)

text \<open>
  C5, as the code has it. Let \<^verbatim>\<open>pingState\<close> be 1 with the echo pin LOW in all passes to
  come, or 2 with the echo pin HIGH in all of them. Then every pass leaves \<^verbatim>\<open>pingState\<close>,
  \<^verbatim>\<open>echoTime\<close> and \<^verbatim>\<open>pongState\<close> as they were, sends no trigger pulse and completes no
  cycle: nothing in the code leaves either state on a timeout. What the ultrasonic block
  records then depends on the stored flag. If \<^verbatim>\<open>pongState\<close> is zero, the pass changes the
  state exactly as the light block followed by the PIR block do, and the debug LED shows
  the PIR detection alone. If \<^verbatim>\<open>pongState\<close> is nonzero, every pass records a detection.
\<close>

theorem ranging_stall:
  "(pingState s = 1 \<and> list_all (\<lambda>j. \<not> echoPin j) ins \<or> pingState s = 2 \<and> list_all echoPin ins \<longrightarrow>
      list_all (\<lambda>x. pingState (snd x) = pingState s \<and> pongState (snd x) = pongState s
          \<and> echoTime (snd x) = echoTime s \<and> \<not> cycleDone (fst x) \<and> \<not> pinged (fst x)
          \<and> pongHit (fst x) = (pongState s \<noteq> 0))
        (run c ins s))
   \<and> ((pingState s = 1 \<and> \<not> echoPin i \<or> pingState s = 2 \<and> echoPin i) \<and> pongState s = 0 \<longrightarrow>
        snd (loop c i s) = snd (pir_step i (snd (light_step c i s)))
        \<and> pirHit (fst (loop c i s)) = ((pirWarm s \<noteq> 0 \<or> 60000 < millis_warm i) \<and> pirPin i)
        \<and> ledOut (fst (loop c i s)) = pirHit (fst (loop c i s)))
   \<and> ((pingState s = 1 \<and> \<not> echoPin i \<or> pingState s = 2 \<and> echoPin i) \<and> pongState s \<noteq> 0 \<longrightarrow>
        pongHit (fst (loop c i s)) \<and> bodyTime (snd (loop c i s)) = millis_pong i)"
proof (intro conjI impI)
  show "list_all (\<lambda>x. pingState (snd x) = pingState s \<and> pongState (snd x) = pongState s
          \<and> echoTime (snd x) = echoTime s \<and> \<not> cycleDone (fst x) \<and> \<not> pinged (fst x)
          \<and> pongHit (fst x) = (pongState s \<noteq> 0))
        (run c ins s)"
    if "pingState s = 1 \<and> list_all (\<lambda>j. \<not> echoPin j) ins \<or> pingState s = 2 \<and> list_all echoPin ins"
    using that by (rule stall_run)
next
  assume a: "(pingState s = 1 \<and> \<not> echoPin i \<or> pingState s = 2 \<and> echoPin i) \<and> pongState s = 0"
  let ?t = "snd (pir_step i (snd (light_step c i s)))"
  from a have "pingState ?t = 1 \<and> \<not> echoPin i \<or> pingState ?t = 2 \<and> echoPin i"
    by (simp add: pir_step_simps light_step_simps)
  then have p: "ping_step c i ?t = ((False, False), ?t)"
    by (rule stall_ping_step)
  from a have "pongState ?t = 0"
    by (simp add: pir_step_simps light_step_simps)
  then have q: "pong_step i ?t = (False, ?t)"
    by (simp add: pong_step_def)
  show "snd (loop c i s) = ?t"
    by (simp add: loop_stages p q)
  show "pirHit (fst (loop c i s)) = ((pirWarm s \<noteq> 0 \<or> 60000 < millis_warm i) \<and> pirPin i)"
    by (rule loop_pirHit)
  from a have "\<not> pongHit (fst (loop c i s))"
    by (simp add: stall_one)
  then show "ledOut (fst (loop c i s)) = pirHit (fst (loop c i s))"
    by (simp add: loop_ledOut)
next
  assume a: "(pingState s = 1 \<and> \<not> echoPin i \<or> pingState s = 2 \<and> echoPin i) \<and> pongState s \<noteq> 0"
  then show hit: "pongHit (fst (loop c i s))"
    by (simp add: stall_one)
  then show "bodyTime (snd (loop c i s)) = millis_pong i"
    by (simp add: loop_bodyTime)
qed

text \<open>
  The instances: waiting for an echo that does not come, with the flag clear and the PIR
  sensor firing after its warm-up; and timing an echo that does not end, with the flag
  set.
\<close>

theorem ranging_stall_witness:
  "pingState (init sketch\<lparr>pingState := 1\<rparr>) = 1
   \<and> list_all (\<lambda>j. \<not> echoPin j) [pass 70000 0 True False, pass 70001 0 False False]
   \<and> list_all (\<lambda>x. pingState (snd x) = 1 \<and> \<not> cycleDone (fst x) \<and> \<not> pongHit (fst x))
        (run sketch [pass 70000 0 True False, pass 70001 0 False False]
           (init sketch\<lparr>pingState := 1\<rparr>))
   \<and> pongState (init sketch\<lparr>pingState := 1\<rparr>) = 0
   \<and> pirHit (fst (loop sketch (pass 70000 0 True False) (init sketch\<lparr>pingState := 1\<rparr>)))
   \<and> bodyTime (snd (loop sketch (pass 70000 0 True False) (init sketch\<lparr>pingState := 1\<rparr>))) = 70000
   \<and> pingState (init sketch\<lparr>pingState := 2, pongState := 1\<rparr>) = 2
   \<and> echoPin (pass 70000 0 False True)
   \<and> pongHit (fst (loop sketch (pass 70000 0 False True)
        (init sketch\<lparr>pingState := 2, pongState := 1\<rparr>)))"
  using ranging_stall [of "init sketch\<lparr>pingState := 1\<rparr>"
      "[pass 70000 0 True False, pass 70001 0 False False]" sketch "pass 70000 0 True False"]
    ranging_stall [of "init sketch\<lparr>pingState := 2, pongState := 1\<rparr>" "[]" sketch
      "pass 70000 0 False True"]
  by (simp add: eval_simps pir_step_simps light_step_simps)

subsection \<open>The echo length and its limit\<close>

lemma pingMicros_uint:
  assumes "2 * 74 * unat (pingInches c) < 2 ^ 32"
  shows "uint (pingMicros c) = 2 * 74 * uint (pingInches c)"
proof -
  have "unat (148 * pingInches c) = (148 * unat (pingInches c)) mod 2 ^ 32"
    by (simp add: unat_word_ariths)
  with assms have "unat (148 * pingInches c) = 148 * unat (pingInches c)"
    by simp
  then have "int (unat (148 * pingInches c)) = int (148 * unat (pingInches c))"
    by simp
  then show ?thesis
    by (simp add: pingMicros_def)
qed

text \<open>
  C6. A pass in \<^verbatim>\<open>case 2\<close> that reads the echo pin LOW completes the cycle and goes back
  to \<^verbatim>\<open>pingState\<close> 0. It sets \<^verbatim>\<open>pongState\<close> to HIGH exactly when the difference of
  \<^verbatim>\<open>micros()\<close> and \<^verbatim>\<open>echoTime\<close>, taken modulo \<open>2 ^ 32\<close>, is strictly less than
  \<open>2 * 74 * pingInches\<close> (for every value of the macro for which this product fits into
  the \<^verbatim>\<open>long\<close> the source computes it in). With the 24 inches of the sketch an echo of
  3404 microseconds gives HIGH and one of 3700 microseconds gives LOW.
\<close>

theorem echo_threshold:
  assumes two: "pingState s = 2" and low: "\<not> echoPin i"
  shows "cycleDone (fst (loop c i s)) \<and> pingState (snd (loop c i s)) = 0
    \<and> (2 * 74 * unat (pingInches c) < 2 ^ 31 \<longrightarrow>
         pongState (snd (loop c i s)) =
           (if (uint (micros i) - uint (echoTime s)) mod 2 ^ 32 < 2 * 74 * uint (pingInches c)
            then 1 else 0))
    \<and> pongState (snd (loop sketch (i\<lparr>micros := echoTime s + 3404\<rparr>) s)) = 1
    \<and> pongState (snd (loop sketch (i\<lparr>micros := echoTime s + 3700\<rparr>) s)) = 0"
proof (intro conjI impI)
  show "cycleDone (fst (loop c i s))"
    using two low by (simp add: loop_cycleDone)
  show "pingState (snd (loop c i s)) = 0"
    using two low by (simp add: loop_pingState)
  show "pongState (snd (loop sketch (i\<lparr>micros := echoTime s + 3404\<rparr>) s)) = 1"
    using two low by (simp add: loop_pongState pingMicros_def sketch_def)
  show "pongState (snd (loop sketch (i\<lparr>micros := echoTime s + 3700\<rparr>) s)) = 0"
    using two low by (simp add: loop_pongState pingMicros_def sketch_def)
  assume "2 * 74 * unat (pingInches c) < 2 ^ 31"
  then have "2 * 74 * unat (pingInches c) < 2 ^ 32"
    by simp
  then have "uint (pingMicros c) = 2 * 74 * uint (pingInches c)"
    by (rule pingMicros_uint)
  then have "(micros i - echoTime s < pingMicros c) =
      ((uint (micros i) - uint (echoTime s)) mod 2 ^ 32 < 2 * 74 * uint (pingInches c))"
    by (simp only: word_sub_less_iff_int)
  then show "pongState (snd (loop c i s)) =
      (if (uint (micros i) - uint (echoTime s)) mod 2 ^ 32 < 2 * 74 * uint (pingInches c)
       then 1 else 0)"
    using two low by (simp only: loop_pongState simp_thms if_True)
qed

text \<open>
  The instance starts the echo 296 microseconds before the microsecond counter wraps, so
  that the subtraction has to wrap as well.
\<close>

theorem echo_threshold_witness:
  "pingState (init sketch\<lparr>pingState := 2, echoTime := 4294967000\<rparr>) = 2
   \<and> \<not> echoPin (pass 7 3108 False False)
   \<and> 2 * 74 * unat (pingInches sketch) < 2 ^ 31
   \<and> (uint (3108 :: ulong) - uint (4294967000 :: ulong)) mod 2 ^ 32 = 3404
   \<and> pongState (snd (loop sketch (pass 7 3108 False False)
        (init sketch\<lparr>pingState := 2, echoTime := 4294967000\<rparr>))) = 1
   \<and> pongState (snd (loop sketch (pass 7 3404 False False)
        (init sketch\<lparr>pingState := 2, echoTime := 4294967000\<rparr>))) = 0"
  using echo_threshold [of "init sketch\<lparr>pingState := 2, echoTime := 4294967000\<rparr>"
      "pass 7 3108 False False" sketch]
  by (simp add: pass_def sketch_def init_def pingMicros_def loop_pongState)

section \<open>The PIR sensor\<close>

lemma latch_stays:
  "pirWarm s \<noteq> 0 \<Longrightarrow>
   list_all (\<lambda>(j, x). pirWarm (snd x) = pirWarm s \<and> pirHit (fst x) = pirPin j)
     (zip ins (run c ins s))"
proof (induction ins arbitrary: s)
  case Nil
  show ?case by simp
next
  case (Cons i ins)
  from Cons.prems have w: "pirWarm (snd (loop c i s)) = pirWarm s"
    by (simp add: loop_pirWarm)
  with Cons.prems have "pirWarm (snd (loop c i s)) \<noteq> 0"
    by simp
  from Cons.IH [OF this] Cons.prems w show ?case
    by (simp add: loop_pirHit)
qed

lemma cold_stays:
  "pirWarm s = 0 \<Longrightarrow> list_all (\<lambda>j. millis_warm j \<le> 60000) ins \<Longrightarrow>
   list_all (\<lambda>x. pirWarm (snd x) = 0 \<and> \<not> pirHit (fst x)) (run c ins s)"
proof (induction ins arbitrary: s)
  case Nil
  show ?case by simp
next
  case (Cons i ins)
  from Cons.prems have le: "\<not> 60000 < millis_warm i"
    by (simp add: not_less)
  with Cons.prems have w: "pirWarm (snd (loop c i s)) = 0"
    by (simp add: loop_pirWarm)
  from Cons.prems have "list_all (\<lambda>j. millis_warm j \<le> 60000) ins"
    by simp
  from Cons.IH [OF w this] Cons.prems w le show ?case
    by (simp add: loop_pirHit)
qed

text \<open>
  C7 does not hold as stated. The pass at 4294967295 ms, the last value before the
  millisecond counter wraps, sets \<^verbatim>\<open>pirWarm\<close>. In the next pass the clock reads 100, which
  is not more than 60000, the PIR pin is HIGH, and the pass records the detection.
\<close>

theorem warmup_gate_counterexample:
  "millis_warm (pass 100 0 True False) \<le> 60000
   \<and> pirPin (pass 100 0 True False)
   \<and> pirHit (fst (run sketch [pass 4294967295 0 False False, pass 100 0 True False]
        (init sketch) ! 1))"
  by (simp add: eval_simps)

text \<open>
  C7, as the code has it. \<^verbatim>\<open>pirWarm\<close> starts at zero, and in a run from the initial state
  in which the clock never reads more than 60000 it stays zero and no pass records a PIR
  detection, whatever the PIR pin reads. In any state with \<^verbatim>\<open>pirWarm\<close> zero, a pass whose
  clock reads at most 60000 records none. A pass whose clock reads more than 60000 leaves
  \<^verbatim>\<open>pirWarm\<close> nonzero and records a detection exactly when the PIR pin is HIGH. Once
  \<^verbatim>\<open>pirWarm\<close> is nonzero it keeps its value in every later pass, and every later pass
  records a detection exactly when the PIR pin is HIGH, whatever its clock reads.
\<close>

theorem warmup_latch:
  "(list_all (\<lambda>j. millis_warm j \<le> 60000) ins \<longrightarrow>
      list_all (\<lambda>x. pirWarm (snd x) = 0 \<and> \<not> pirHit (fst x)) (run c ins (init c)))
   \<and> (pirWarm s = 0 \<and> millis_warm i \<le> 60000 \<longrightarrow>
        \<not> pirHit (fst (loop c i s)) \<and> pirWarm (snd (loop c i s)) = 0)
   \<and> (60000 < millis_warm i \<longrightarrow>
        pirWarm (snd (loop c i s)) \<noteq> 0 \<and> pirHit (fst (loop c i s)) = pirPin i)
   \<and> (pirWarm s \<noteq> 0 \<longrightarrow>
        list_all (\<lambda>(j, x). pirWarm (snd x) = pirWarm s \<and> pirHit (fst x) = pirPin j)
          (zip ins (run c ins s)))"
proof (intro conjI impI)
  show "list_all (\<lambda>x. pirWarm (snd x) = 0 \<and> \<not> pirHit (fst x)) (run c ins (init c))"
    if "list_all (\<lambda>j. millis_warm j \<le> 60000) ins"
    using that by (intro cold_stays) (simp_all add: init_def)
  show "\<not> pirHit (fst (loop c i s))" if "pirWarm s = 0 \<and> millis_warm i \<le> 60000"
    using that by (auto simp add: loop_pirHit dest: leD)
  show "pirWarm (snd (loop c i s)) = 0" if "pirWarm s = 0 \<and> millis_warm i \<le> 60000"
    using that by (auto simp add: loop_pirWarm dest: leD)
  show "pirWarm (snd (loop c i s)) \<noteq> 0" if "60000 < millis_warm i"
    using that by (simp add: loop_pirWarm)
  show "pirHit (fst (loop c i s)) = pirPin i" if "60000 < millis_warm i"
    using that by (simp add: loop_pirHit)
  show "list_all (\<lambda>(j, x). pirWarm (snd x) = pirWarm s \<and> pirHit (fst x) = pirPin j)
          (zip ins (run c ins s))" if "pirWarm s \<noteq> 0"
    using that by (rule latch_stays)
qed

text \<open>
  The instances: passes at 0 and 60000 ms with the PIR pin HIGH, a pass at 60001 ms, and
  two passes after the counter has wrapped.
\<close>

theorem warmup_latch_witness:
  "list_all (\<lambda>j. millis_warm j \<le> 60000) [pass 0 0 True False, pass 60000 0 True False]
   \<and> list_all (\<lambda>x. pirWarm (snd x) = 0 \<and> \<not> pirHit (fst x))
        (run sketch [pass 0 0 True False, pass 60000 0 True False] (init sketch))
   \<and> pirWarm (init sketch) = 0
   \<and> (60000 :: ulong) < millis_warm (pass 60001 0 True False)
   \<and> pirHit (fst (loop sketch (pass 60001 0 True False) (init sketch)))
   \<and> pirWarm (snd (loop sketch (pass 60001 0 True False) (init sketch))) \<noteq> 0
   \<and> list_all (\<lambda>(j, x). pirWarm (snd x) = 1 \<and> pirHit (fst x) = pirPin j)
        (zip [pass 100 0 True False, pass 101 0 False False]
          (run sketch [pass 100 0 True False, pass 101 0 False False]
             (snd (loop sketch (pass 60001 0 True False) (init sketch)))))"
  using warmup_latch [of "[pass 0 0 True False, pass 60000 0 True False]" sketch
      "init sketch" "pass 60001 0 True False"]
    warmup_latch [of "[pass 100 0 True False, pass 101 0 False False]" sketch
      "snd (loop sketch (pass 60001 0 True False) (init sketch))" "pass 60001 0 True False"]
  by (simp add: eval_simps)

section \<open>The order of the blocks, and the two sensors together\<close>

text \<open>
  C8. The level written to the light pin is the outcome of the first block, which runs on
  the state the pass started with; the state the pass leaves is the result of the PIR
  block and the ultrasonic blocks run after it, in this order. So the level depends on
  nothing but \<^verbatim>\<open>bodyTime\<close> at the start of the pass and the clock value read in the
  condition: two passes that agree on these write the same level, whatever the pins read
  and whatever the rest of the state is. A detection recorded in a pass decides the level
  of the pass that follows.
\<close>

theorem light_before_detections:
  "lightOut (fst (loop c i s)) = fst (light_step c i s)
   \<and> snd (loop c i s) =
       snd (pong_step i (snd (ping_step c i (snd (pir_step i (snd (light_step c i s)))))))
   \<and> (millis_light i' = millis_light i \<and> bodyTime s' = bodyTime s \<longrightarrow>
        lightOut (fst (loop c i' s')) = lightOut (fst (loop c i s)))
   \<and> (pirHit (fst (loop c i s)) \<or> pongHit (fst (loop c i s)) \<longrightarrow>
        lightOut (fst (loop c j (snd (loop c i s)))) =
          (millis_light j - (if pongHit (fst (loop c i s)) then millis_pong i else millis_pir i)
             < holdMillis c))"
proof (intro conjI impI)
  show "lightOut (fst (loop c i s)) = fst (light_step c i s)"
    by (simp add: loop_fst)
  show "snd (loop c i s) =
       snd (pong_step i (snd (ping_step c i (snd (pir_step i (snd (light_step c i s)))))))"
    by (rule loop_stages)
  show "lightOut (fst (loop c i' s')) = lightOut (fst (loop c i s))"
    if "millis_light i' = millis_light i \<and> bodyTime s' = bodyTime s"
    using that by (simp add: loop_lightOut)
  show "lightOut (fst (loop c j (snd (loop c i s)))) =
          (millis_light j - (if pongHit (fst (loop c i s)) then millis_pong i else millis_pir i)
             < holdMillis c)"
    if "pirHit (fst (loop c i s)) \<or> pongHit (fst (loop c i s))"
    using that by (auto simp add: loop_lightOut [of c j] loop_bodyTime)
qed

text \<open>
  The instance: the PIR sensor fires at 70000 ms. The light stays off in that pass, as it
  does without the detection, and is on in the next pass, where it would otherwise be off.
\<close>

theorem light_before_detections_witness:
  "pirHit (fst (loop sketch (pass 70000 0 True False) (init sketch)))
   \<and> \<not> lightOut (fst (loop sketch (pass 70000 0 True False) (init sketch)))
   \<and> \<not> lightOut (fst (loop sketch (pass 70000 0 False False) (init sketch)))
   \<and> lightOut (fst (loop sketch (pass 70001 0 False False)
        (snd (loop sketch (pass 70000 0 True False) (init sketch)))))
   \<and> \<not> lightOut (fst (loop sketch (pass 70001 0 False False)
        (snd (loop sketch (pass 70000 0 False False) (init sketch)))))"
  using light_before_detections [where c = sketch and i = "pass 70000 0 True False"
      and s = "init sketch" and i' = "pass 70000 0 False False" and s' = "init sketch"
      and j = "pass 70001 0 False False"]
  by (simp add: eval_simps stage_simps)

text \<open>
  C9. Whichever block records a detection, \<^verbatim>\<open>bodyTime\<close> receives the value of \<^verbatim>\<open>millis()\<close>
  read in that block: the one read in the ultrasonic block if that block fired (it runs
  last), otherwise the one read in the PIR block. If the clock reads \<open>now\<close> in both blocks,
  the pass leaves \<^verbatim>\<open>bodyTime\<close> at \<open>now\<close> when the PIR block fired alone, when the
  ultrasonic block fired alone, and when both fired. With no detection \<^verbatim>\<open>bodyTime\<close> is
  what the light block left. The debug LED shows the disjunction of the two.
\<close>

theorem either_sensor_sets_bodyTime:
  "(pongHit (fst (loop c i s)) \<longrightarrow> bodyTime (snd (loop c i s)) = millis_pong i)
   \<and> (pirHit (fst (loop c i s)) \<and> \<not> pongHit (fst (loop c i s)) \<longrightarrow>
        bodyTime (snd (loop c i s)) = millis_pir i)
   \<and> ((pirHit (fst (loop c i s)) \<or> pongHit (fst (loop c i s)))
        \<and> millis_pir i = now \<and> millis_pong i = now \<longrightarrow> bodyTime (snd (loop c i s)) = now)
   \<and> (\<not> pirHit (fst (loop c i s)) \<and> \<not> pongHit (fst (loop c i s)) \<longrightarrow>
        bodyTime (snd (loop c i s)) = bodyTime (snd (light_step c i s)))
   \<and> ledOut (fst (loop c i s)) = (pirHit (fst (loop c i s)) \<or> pongHit (fst (loop c i s)))"
  by (auto simp add: loop_bodyTime loop_ledOut loop_lightOut light_step_simps)

text \<open>
  The instances: the PIR sensor alone, the ultrasonic sensor alone, and neither, each in a
  pass at 5000 ms.
\<close>

theorem either_sensor_sets_bodyTime_witness:
  "pirHit (fst (loop sketch (pass 5000 0 True False) (init sketch\<lparr>pirWarm := 1\<rparr>)))
   \<and> \<not> pongHit (fst (loop sketch (pass 5000 0 True False) (init sketch\<lparr>pirWarm := 1\<rparr>)))
   \<and> bodyTime (snd (loop sketch (pass 5000 0 True False) (init sketch\<lparr>pirWarm := 1\<rparr>))) = 5000
   \<and> \<not> pirHit (fst (loop sketch (pass 5000 0 False False) (init sketch\<lparr>pongState := 1\<rparr>)))
   \<and> pongHit (fst (loop sketch (pass 5000 0 False False) (init sketch\<lparr>pongState := 1\<rparr>)))
   \<and> bodyTime (snd (loop sketch (pass 5000 0 False False) (init sketch\<lparr>pongState := 1\<rparr>))) = 5000
   \<and> \<not> ledOut (fst (loop sketch (pass 5000 0 False False) (init sketch)))
   \<and> bodyTime (snd (loop sketch (pass 5000 0 False False) (init sketch))) = 4294882296"
  using either_sensor_sets_bodyTime [of sketch "pass 5000 0 True False"
      "init sketch\<lparr>pirWarm := 1\<rparr>" 5000]
    either_sensor_sets_bodyTime [of sketch "pass 5000 0 False False"
      "init sketch\<lparr>pongState := 1\<rparr>" 5000]
    either_sensor_sets_bodyTime [of sketch "pass 5000 0 False False" "init sketch" 5000]
  by (simp add: eval_simps light_step_simps)

section \<open>Start-up\<close>

lemma stays_off:
  "bodyTime s = t - holdMillis c \<Longrightarrow> steady c t ins \<Longrightarrow>
   list_all (\<lambda>x. \<not> pirHit (fst x) \<and> \<not> pongHit (fst x)) (run c ins s) \<Longrightarrow>
   list_all (\<lambda>x. \<not> lightOut (fst x)) (run c ins s)"
proof (induction ins arbitrary: s t)
  case Nil
  show ?case by simp
next
  case (Cons i ins)
  from Cons.prems(2) have "unat (millis_light i - t) + unat (holdMillis c) < 2 ^ 32"
    by simp
  then have nw: "\<not> millis_light i - t + holdMillis c < holdMillis c"
    by (rule no_wrap_not_less)
  from Cons.prems(1) have eq: "millis_light i - bodyTime s = millis_light i - t + holdMillis c"
    by simp
  from nw have off: "\<not> lightOut (fst (loop c i s))"
    unfolding loop_lightOut eq .
  from Cons.prems(3) have "\<not> pirHit (fst (loop c i s)) \<and> \<not> pongHit (fst (loop c i s))"
    by simp
  with off have b: "bodyTime (snd (loop c i s)) = millis_rearm i - holdMillis c"
    by (simp add: loop_bodyTime)
  from Cons.prems(2) have st: "steady c (millis_rearm i) ins"
    by simp
  from Cons.prems(3) have
    "list_all (\<lambda>x. \<not> pirHit (fst x) \<and> \<not> pongHit (fst x)) (run c ins (snd (loop c i s)))"
    by simp
  from Cons.IH [OF b st this] off show ?case
    by simp
qed

text \<open>
  C10. \<^verbatim>\<open>bodyTime\<close> starts at \<^verbatim>\<open>0 - 1000UL * lightInterval\<close>, which is the hold interval
  before clock value zero. In a run from the initial state in which no pass records a
  detection, every pass writes LOW to the light pin, the first one included. The clock is
  taken to start at zero with the program: the run is \<open>steady\<close> from clock value 0.
\<close>

theorem light_starts_off:
  assumes "steady c 0 ins"
    and "list_all (\<lambda>x. \<not> pirHit (fst x) \<and> \<not> pongHit (fst x)) (run c ins (init c))"
  shows "bodyTime (init c) = 0 - 1000 * lightInterval c
    \<and> 0 - bodyTime (init c) = holdMillis c
    \<and> list_all (\<lambda>x. \<not> lightOut (fst x)) (run c ins (init c))"
proof (intro conjI)
  show "bodyTime (init c) = 0 - 1000 * lightInterval c"
    by (simp add: init_def holdMillis_def)
  show "0 - bodyTime (init c) = holdMillis c"
    by (simp add: init_def)
  have "bodyTime (init c) = 0 - holdMillis c"
    by (simp add: init_def)
  from stays_off [OF this assms] show "list_all (\<lambda>x. \<not> lightOut (fst x)) (run c ins (init c))" .
qed

text \<open>
  The instance: four passes from the start, the third more than 49 days after the second
  and the fourth after the counter has wrapped; the PIR pin reads HIGH during the warm-up
  and a ping cycle completes with a long echo.
\<close>

theorem light_starts_off_witness:
  "steady sketch 0 [pass 2 50 False False, pass 3 900 True False, pass 4294000000 0 False True,
           pass 5 5000 False False]
   \<and> list_all (\<lambda>x. \<not> pirHit (fst x) \<and> \<not> pongHit (fst x))
        (run sketch [pass 2 50 False False, pass 3 900 True False, pass 4294000000 0 False True,
           pass 5 5000 False False]
          (init sketch))
   \<and> bodyTime (init sketch) = 4294877296
   \<and> list_all (\<lambda>x. \<not> lightOut (fst x))
        (run sketch [pass 2 50 False False, pass 3 900 True False, pass 4294000000 0 False True,
           pass 5 5000 False False]
          (init sketch))"
  using light_starts_off [of sketch
      "[pass 2 50 False False, pass 3 900 True False, pass 4294000000 0 False True,
           pass 5 5000 False False]"]
  by (simp add: eval_simps)

end
